theory Spec2Isabelle
  imports Complex_Main
begin

section \<open>Python values used by portfolio\_bot.py\<close>

text \<open>
  A Python \<open>str\<close> is a sequence of Unicode code points, so it is modelled as a list of
  natural numbers; \<open>lit\<close> turns an ASCII literal of the source into such a list.
\<close>

type_synonym pystr = "nat list"

definition lit :: "string \<Rightarrow> pystr" where
  "lit s = map of_char s"

text \<open>
  The characters that \<open>str.split()\<close> (no argument) and \<open>str.strip()\<close> treat as
  whitespace: the code points for which \<open>str.isspace\<close> holds.
\<close>

definition is_space :: "nat \<Rightarrow> bool" where
  "is_space c \<longleftrightarrow>
     (9 \<le> c \<and> c \<le> 13) \<or> (28 \<le> c \<and> c \<le> 32) \<or> c = 133 \<or> c = 160 \<or> c = 5760 \<or>
     (8192 \<le> c \<and> c \<le> 8202) \<or> c = 8232 \<or> c = 8233 \<or> c = 8239 \<or> c = 8287 \<or>
     c = 12288"

text \<open>The exceptions of the source that the model keeps apart.\<close>

datatype exn = ValueError | KeyError | TypeError | IndexError | JSONDecodeError | ServiceError

text \<open>\<open>text.split()\<close>: the maximal runs of non-whitespace characters, in order.
  \<open>cur\<close> is the word being read.\<close>

fun split_from :: "pystr \<Rightarrow> pystr \<Rightarrow> pystr list" where
  "split_from cur [] = (if cur = [] then [] else [cur])"
| "split_from cur (c # cs) =
     (if is_space c then (if cur = [] then split_from [] cs else cur # split_from [] cs)
      else split_from (cur @ [c]) cs)"

definition py_split :: "pystr \<Rightarrow> pystr list" where
  "py_split text = split_from [] text"

text \<open>What \<open>split\<close> yields: a non-empty run without whitespace.\<close>

definition is_word :: "pystr \<Rightarrow> bool" where
  "is_word w \<longleftrightarrow> w \<noteq> [] \<and> (\<forall>c\<in>set w. \<not> is_space c)"

text \<open>\<open>s.strip()\<close>: leading and trailing whitespace removed.\<close>

definition py_strip :: "pystr \<Rightarrow> pystr" where
  "py_strip s = rev (dropWhile is_space (rev (dropWhile is_space s)))"

text \<open>\<open>sep.join(parts)\<close>.\<close>

fun py_join :: "pystr \<Rightarrow> pystr list \<Rightarrow> pystr" where
  "py_join sep [] = []"
| "py_join sep [w] = w"
| "py_join sep (w # ws) = w @ sep @ py_join sep ws"

text \<open>
  \<open>xs[i:j]\<close> for integers \<open>i\<close> and \<open>j\<close>: a negative bound counts from the end, and
  both bounds are clipped to the list.
\<close>

definition clip_index :: "int \<Rightarrow> int \<Rightarrow> int" where
  "clip_index n i = (if i < 0 then max (i + n) 0 else min i n)"

definition py_slice :: "'a list \<Rightarrow> int \<Rightarrow> int \<Rightarrow> 'a list" where
  "py_slice xs i j =
     (let n = int (length xs); lo = clip_index n i; hi = clip_index n j
      in if lo < hi then take (nat (hi - lo)) (drop (nat lo) xs) else [])"

section \<open>PersonalKnowledgeBase.\_chunk\_text\<close>

text \<open>
  The body of \<open>for i in range(0, len(words), step)\<close>, for a positive \<open>step\<close>:
  \<open>i\<close> is the loop variable, \<open>chunks\<close> the list built so far. For a negative
  \<open>step\<close> the range is empty, since its start 0 is not above \<open>len(words)\<close>.
\<close>

function chunk_loop :: "pystr list \<Rightarrow> int \<Rightarrow> int \<Rightarrow> int \<Rightarrow> pystr list \<Rightarrow> pystr list" where
  "chunk_loop words chunk_size step i chunks =
     (if 0 < step \<and> i < int (length words) then
        (let chunk = py_join (lit '' '') (py_slice words i (i + chunk_size))
         in chunk_loop words chunk_size step (i + step)
              (if py_strip chunk \<noteq> [] then chunks @ [chunk] else chunks))
      else chunks)"
  by pat_completeness auto
termination
  by (relation "measure (\<lambda>(words, chunk_size, step, i, chunks). nat (int (length words) - i))") auto

text \<open>
  \<open>_chunk_text(text, chunk_size, overlap)\<close>. \<open>range\<close> raises \<open>ValueError\<close> when
  its step is zero, whatever its bounds are.
\<close>

definition chunk_text :: "pystr \<Rightarrow> int \<Rightarrow> int \<Rightarrow> exn + pystr list" where
  "chunk_text text chunk_size overlap =
     (let words = py_split text; step = chunk_size - overlap
      in if step = 0 then Inl ValueError
         else Inr (chunk_loop words chunk_size step 0 []))"

section \<open>Values exchanged with the collaborators\<close>

text \<open>
  Python values that travel as JSON or as dictionaries: tool arguments, tool results
  and the messages of a request. A dictionary is a list of key/value pairs in insertion
  order.
\<close>

datatype pyval =
    PNone
  | PBool bool
  | PInt int
  | PFloat real
  | PStr pystr
  | PList "pyval list"
  | PDict "(pystr \<times> pyval) list"

definition bind_exn :: "exn + 'a \<Rightarrow> ('a \<Rightarrow> exn + 'b) \<Rightarrow> exn + 'b" where
  "bind_exn m f = (case m of Inl e \<Rightarrow> Inl e | Inr x \<Rightarrow> f x)"

text \<open>\<open>xs[i]\<close> for a non-negative index.\<close>

definition py_index :: "'a list \<Rightarrow> nat \<Rightarrow> exn + 'a" where
  "py_index xs i = (if i < length xs then Inr (xs ! i) else Inl IndexError)"

text \<open>\<open>xs[i:]\<close>.\<close>

definition py_slice_from :: "'a list \<Rightarrow> int \<Rightarrow> 'a list" where
  "py_slice_from xs i = drop (nat (clip_index (int (length xs)) i)) xs"

text \<open>\<open>v[key]\<close> for a string key: only a dictionary can be subscripted by a string.\<close>

definition py_getitem :: "pyval \<Rightarrow> pystr \<Rightarrow> exn + pyval" where
  "py_getitem v key =
     (case v of
        PDict kvs \<Rightarrow> (case map_of kvs key of None \<Rightarrow> Inl KeyError | Some x \<Rightarrow> Inr x)
      | _ \<Rightarrow> Inl TypeError)"

text \<open>\<open>str(n)\<close> for a non-negative integer, as the f-strings of the source print it.\<close>

function str_nat :: "nat \<Rightarrow> pystr" where
  "str_nat n = (if n < 10 then [48 + n] else str_nat (n div 10) @ [48 + n mod 10])"
  by pat_completeness auto
termination
  by (relation "measure id") auto

text \<open>
  \<open>s.lower()\<close> on the ASCII letters. The source only compares the result with the
  ASCII extensions \<open>.txt\<close>, \<open>.md\<close>, \<open>.pdf\<close> and \<open>.docx\<close>, and no character
  outside \<open>A\<close>..\<open>Z\<close> is lowered to one of their letters.
\<close>

definition py_lower :: "pystr \<Rightarrow> pystr" where
  "py_lower s = map (\<lambda>c. if 65 \<le> c \<and> c \<le> 90 then c + 32 else c) s"

section \<open>The collection of the vector store\<close>

text \<open>The metadata dictionary that \<open>_load_documents\<close> stores with each chunk.\<close>

record metadata =
  source :: pystr
  chunk_index :: nat
  file_type :: pystr

record entry =
  entry_id :: pystr
  document :: pystr
  meta :: metadata

text \<open>
  A key of the dictionary that \<open>collection.query\<close> returns: missing, present with
  the value \<open>None\<close>, or present with a value. The value holds one list per query
  text, and the metadata of a hit is typed as \<open>_load_documents\<close> stores it.
\<close>

datatype 'a field = Absent | PyNone | Val 'a

text \<open>
  Distances and scores are Python floats. Their type \<open>'f\<close> and the two things the
  source does with them are parameters: the float \<open>1.0\<close> and float subtraction, with
  whatever rounding and special values the interpreter has.
\<close>

record 'f float_ops =
  float_one :: 'f
  float_sub :: "'f \<Rightarrow> 'f \<Rightarrow> 'f"

record 'f query_result =
  qr_documents :: "pystr list list field"
  qr_metadatas :: "metadata list list field"
  qr_distances :: "'f list list field"

text \<open>
  The nearest-neighbour query of the vector store is an external collaborator: it is
  a parameter, given the entries of the collection, the query text and \<open>n_results\<close>.
\<close>

type_synonym 'f backend = "entry list \<Rightarrow> pyval \<Rightarrow> int \<Rightarrow> exn + 'f query_result"

text \<open>
  \<open>self.collection\<close>: the entries of the collection \<open>glory_portfolio\<close>, or
  \<open>None\<close> when the collection the handle refers to has been deleted; every operation
  on a deleted collection raises.
\<close>

type_synonym collection = "entry list option"

definition collection_query ::
  "'f backend \<Rightarrow> collection \<Rightarrow> pyval \<Rightarrow> int \<Rightarrow> exn + 'f query_result" where
  "collection_query be coll query n_results =
     (case coll of None \<Rightarrow> Inl ServiceError | Some es \<Rightarrow> be es query n_results)"

text \<open>
  What the vector store promises for a query: the documents of an answer are documents
  of the collection, and there are at most \<open>n_results\<close> of them.
\<close>

definition backend_sound :: "'f backend \<Rightarrow> bool" where
  "backend_sound be \<longleftrightarrow>
     (\<forall>es query n r ds rest.
        be es query n = Inr r \<and> qr_documents r = Val (ds # rest) \<longrightarrow>
          int (length ds) \<le> n \<and> set ds \<subseteq> document ` set es)"

text \<open>
  The calls that change the store can raise for reasons outside the program (the
  embedding function, the disk, a limit of the store). Whether the one call of each
  kind that a rebuild makes raises for such a reason is a parameter.
\<close>

record store_faults =
  delete_fails :: bool
  create_fails :: bool
  add_fails :: bool

text \<open>
  \<open>collection.add(documents, metadatas, ids)\<close>, one batch. The store rejects lists of
  different lengths and a batch that repeats an id; it leaves out an entry whose id is
  already stored. A call that raises yields no collection: nothing is said about the
  store after it.
\<close>

fun zip_entries :: "pystr list \<Rightarrow> metadata list \<Rightarrow> pystr list \<Rightarrow> entry list" where
  "zip_entries (d # ds) (m # ms) (i # is) =
     \<lparr>entry_id = i, document = d, meta = m\<rparr> # zip_entries ds ms is"
| "zip_entries _ _ _ = []"

definition collection_add ::
  "store_faults \<Rightarrow> collection \<Rightarrow> pystr list \<Rightarrow> metadata list \<Rightarrow> pystr list \<Rightarrow>
     exn + collection" where
  "collection_add flt coll documents metadatas ids =
     (case coll of
        None \<Rightarrow> Inl ServiceError
      | Some es \<Rightarrow>
          if add_fails flt then Inl ServiceError
          else if length documents \<noteq> length ids \<or> length metadatas \<noteq> length ids \<or>
                  \<not> distinct ids then Inl ValueError
          else Inr (Some (es @
                 filter (\<lambda>e. entry_id e \<notin> entry_id ` set es)
                   (zip_entries documents metadatas ids))))"

section \<open>PersonalKnowledgeBase.\_load\_documents\<close>

text \<open>
  A path that \<open>about_me_folder.rglob('*')\<close> yields, with the attributes the source
  reads. The file system and the three text extractors are external: the extractors
  are parameters, and each returns the empty string for a file it cannot read.
\<close>

record file_path =
  name :: pystr
  stem :: pystr
  suffix :: pystr
  is_file :: bool

record readers =
  read_text_file :: "file_path \<Rightarrow> pystr"
  read_pdf :: "file_path \<Rightarrow> pystr"
  read_docx :: "file_path \<Rightarrow> pystr"

text \<open>The local variables of \<open>_load_documents\<close> that its loops update.\<close>

record load_state =
  documents :: "pystr list"
  metadatas :: "metadata list"
  ids :: "pystr list"
  doc_count :: nat

definition supported_extensions :: "pystr list" where
  "supported_extensions = [lit ''.txt'', lit ''.md'', lit ''.pdf'', lit ''.docx'']"

text \<open>\<open>f"{filepath.stem}_chunk_{doc_count}_{i}"\<close>\<close>

definition doc_id :: "pystr \<Rightarrow> nat \<Rightarrow> nat \<Rightarrow> pystr" where
  "doc_id stm dc i = stm @ lit ''_chunk_'' @ str_nat dc @ lit ''_'' @ str_nat i"

text \<open>\<open>for i, chunk in enumerate(chunks)\<close>, from index \<open>i\<close> on.\<close>

fun add_chunks :: "file_path \<Rightarrow> nat \<Rightarrow> pystr list \<Rightarrow> load_state \<Rightarrow> load_state" where
  "add_chunks filepath i [] st = st"
| "add_chunks filepath i (chunk # chunks) st =
     add_chunks filepath (Suc i) chunks
       (st\<lparr>documents := documents st @ [chunk],
           metadatas := metadatas st @
             [\<lparr>source = name filepath, chunk_index = i, file_type = suffix filepath\<rparr>],
           ids := ids st @ [doc_id (stem filepath) (doc_count st) i]\<rparr>)"

text \<open>\<open>for filepath in self.about_me_folder.rglob('*')\<close>\<close>

fun scan_files :: "readers \<Rightarrow> file_path list \<Rightarrow> load_state \<Rightarrow> exn + load_state" where
  "scan_files rd [] st = Inr st"
| "scan_files rd (filepath # rest) st =
     (if is_file filepath \<and> py_lower (suffix filepath) \<in> set supported_extensions then
        (let content =
           (if py_lower (suffix filepath) = lit ''.pdf'' then read_pdf rd filepath
            else if py_lower (suffix filepath) = lit ''.docx'' then read_docx rd filepath
            else read_text_file rd filepath)
         in if py_strip content = [] then scan_files rd rest st
            else (case chunk_text content 500 50 of
                    Inl e \<Rightarrow> Inl e
                  | Inr chunks \<Rightarrow>
                      scan_files rd rest
                        ((add_chunks filepath 0 chunks st)\<lparr>doc_count := doc_count st + 1\<rparr>)))
      else scan_files rd rest st)"

definition load_state0 :: load_state where
  "load_state0 = \<lparr>documents = [], metadatas = [], ids = [], doc_count = 0\<rparr>"

text \<open>The value of a string of decimal digits, and what holds of the ids collected so far.\<close>

definition dec_val :: "pystr \<Rightarrow> nat" where
  "dec_val ds = foldl (\<lambda>a d. 10 * a + (d - 48)) 0 ds"

definition ids_ok :: "load_state \<Rightarrow> bool" where
  "ids_ok st \<longleftrightarrow>
     distinct (ids st) \<and> (\<forall>x\<in>set (ids st). \<exists>s d j. x = doc_id s d j \<and> d < doc_count st)"

definition same_lengths :: "load_state \<Rightarrow> bool" where
  "same_lengths st \<longleftrightarrow>
     length (documents st) = length (ids st) \<and> length (metadatas st) = length (ids st)"

definition load_documents ::
  "store_faults \<Rightarrow> readers \<Rightarrow> file_path list \<Rightarrow> collection \<Rightarrow> exn + collection" where
  "load_documents flt rd files coll =
     (case scan_files rd files load_state0 of
        Inl e \<Rightarrow> Inl e
      | Inr st \<Rightarrow>
          if documents st \<noteq> [] then
            collection_add flt coll (documents st) (metadatas st) (ids st)
          else Inr coll)"

section \<open>PersonalKnowledgeBase.search\<close>

text \<open>The dictionaries that \<open>search\<close> returns.\<close>

record 'f search_result =
  sr_content :: pystr
  sr_source :: pystr
  relevance_score :: 'f

text \<open>\<open>results[key][0]\<close>, for a key of the answer of the vector store.\<close>

definition subscript0 :: "'a list field \<Rightarrow> exn + 'a" where
  "subscript0 f =
     (case f of Absent \<Rightarrow> Inl KeyError | PyNone \<Rightarrow> Inl TypeError | Val xs \<Rightarrow> py_index xs 0)"

text \<open>
  The dictionary built for the document at index \<open>i\<close>. In \<open>1 - distance\<close> the
  integer 1 becomes the float \<open>1.0\<close> and the subtraction is the one of floats.
\<close>

definition format_result ::
  "'f float_ops \<Rightarrow> 'f query_result \<Rightarrow> nat \<Rightarrow> pystr \<Rightarrow> exn + 'f search_result" where
  "format_result fl results i doc =
     bind_exn (bind_exn (subscript0 (qr_metadatas results)) (\<lambda>ms. py_index ms i)) (\<lambda>m.
     bind_exn
       (if qr_distances results \<noteq> Absent then
          bind_exn (bind_exn (subscript0 (qr_distances results)) (\<lambda>ds. py_index ds i))
            (\<lambda>d. Inr (float_sub fl (float_one fl) d))
        else Inr (float_one fl))
       (\<lambda>score. Inr \<lparr>sr_content = doc, sr_source = source m, relevance_score = score\<rparr>))"

text \<open>\<open>for i, doc in enumerate(results['documents'][0])\<close>, from index \<open>i\<close> on.\<close>

fun format_loop ::
  "'f float_ops \<Rightarrow> 'f query_result \<Rightarrow> nat \<Rightarrow> pystr list \<Rightarrow> 'f search_result list \<Rightarrow>
     exn + 'f search_result list" where
  "format_loop fl results i [] formatted_results = Inr formatted_results"
| "format_loop fl results i (doc # docs) formatted_results =
     (case format_result fl results i doc of
        Inl e \<Rightarrow> Inl e
      | Inr r \<Rightarrow> format_loop fl results (Suc i) docs (formatted_results @ [r]))"

text \<open>The body of the \<open>try\<close> block.\<close>

definition search_try ::
  "'f float_ops \<Rightarrow> 'f backend \<Rightarrow> collection \<Rightarrow> pyval \<Rightarrow> int \<Rightarrow> exn + 'f search_result list" where
  "search_try fl be coll query top_k =
     bind_exn (collection_query be coll query top_k) (\<lambda>results.
       case qr_documents results of
         Absent \<Rightarrow> Inl KeyError
       | PyNone \<Rightarrow> Inr []
       | Val [] \<Rightarrow> Inr []
       | Val (docs # _) \<Rightarrow> if docs = [] then Inr [] else format_loop fl results 0 docs [])"

text \<open>\<open>search(query, top_k)\<close>: every exception of the body is caught and gives \<open>[]\<close>.\<close>

definition search ::
  "'f float_ops \<Rightarrow> 'f backend \<Rightarrow> collection \<Rightarrow> pyval \<Rightarrow> int \<Rightarrow> 'f search_result list" where
  "search fl be coll query top_k =
     (case search_try fl be coll query top_k of Inl e \<Rightarrow> [] | Inr formatted \<Rightarrow> formatted)"

section \<open>PersonalKnowledgeBase.refresh\_knowledge\_base\<close>

text \<open>
  The three statements of \<open>refresh_knowledge_base\<close> act on the collection one after
  the other. \<open>delete_collection\<close> stands in a \<open>try\<close> whose handler passes: when
  the call raises, the collection is as it was, and the rebuild goes on.
\<close>

definition delete_collection :: "store_faults \<Rightarrow> collection \<Rightarrow> collection" where
  "delete_collection flt coll = (if delete_fails flt then coll else None)"

text \<open>
  \<open>create_collection\<close> is not guarded. It raises when the store fails and when a
  collection of that name is still there; otherwise it makes an empty collection, and
  \<open>self.collection\<close> is bound to it.
\<close>

definition create_collection :: "store_faults \<Rightarrow> collection \<Rightarrow> exn + collection" where
  "create_collection flt coll =
     (if create_fails flt \<or> coll \<noteq> None then Inl ServiceError else Inr (Some []))"

text \<open>
  One run of \<open>refresh_knowledge_base\<close>: the collection after each statement that has
  returned, in program order (what a query that runs between two statements works
  on), and the collection at the end or the exception that left the call. Nothing is
  said about the collection after a call that raised.
\<close>

definition refresh_run ::
  "store_faults \<Rightarrow> readers \<Rightarrow> file_path list \<Rightarrow> collection \<Rightarrow>
     collection list \<times> (exn + collection)" where
  "refresh_run flt rd files coll =
     (let c1 = delete_collection flt coll
      in case create_collection flt c1 of
           Inl e \<Rightarrow> ([c1], Inl e)
         | Inr c2 \<Rightarrow>
            (case load_documents flt rd files c2 of
               Inl e \<Rightarrow> ([c1, c2], Inl e)
             | Inr c3 \<Rightarrow> ([c1, c2, c3], Inr c3)))"

definition refresh_states ::
  "store_faults \<Rightarrow> readers \<Rightarrow> file_path list \<Rightarrow> collection \<Rightarrow> collection list" where
  "refresh_states flt rd files coll = fst (refresh_run flt rd files coll)"

definition refresh_knowledge_base ::
  "store_faults \<Rightarrow> readers \<Rightarrow> file_path list \<Rightarrow> collection \<Rightarrow> exn + collection" where
  "refresh_knowledge_base flt rd files coll = snd (refresh_run flt rd files coll)"

section \<open>PortfolioChatBot\<close>

text \<open>The dataclass \<open>Message\<close>. The final content of a turn can be \<open>None\<close>.\<close>

record message =
  role :: pystr
  content :: "pystr option"
  timestamp :: pystr

text \<open>What the source reads of a response of the model service.\<close>

record function_call =
  fn_name :: pystr
  fn_arguments :: pystr

record tool_call =
  tc_id :: pystr
  tc_function :: function_call

record assistant_message =
  am_content :: "pystr option"
  am_tool_calls :: "tool_call list option"

record completion =
  choices :: "assistant_message list"

text \<open>
  The keyword arguments of \<open>client.chat.completions.create\<close>; \<open>tools\<close> and
  \<open>tool_choice\<close> are \<open>None\<close> when the call does not pass them. The temperature is
  the literal \<open>0.7\<close> of the source, kept by its decimal value.
\<close>

record request =
  rq_model :: pystr
  rq_messages :: "pyval list"
  rq_tools :: "pyval option"
  rq_tool_choice :: "pystr option"
  rq_temperature :: real
  rq_max_tokens :: int

text \<open>
  The collaborators of a chat turn: the model service, the vector store, the float
  arithmetic, the \<open>json\<close> module, and the clock that stamps a new \<open>Message\<close> (read
  once for the user message and once for the answer).
\<close>

record 'f env =
  create :: "request \<Rightarrow> exn + completion"
  query_backend :: "'f backend"
  floats :: "'f float_ops"
  json_loads :: "pystr \<Rightarrow> exn + pyval"
  json_dumps :: "pyval \<Rightarrow> pystr"
  now_user :: pystr
  now_assistant :: pystr

text \<open>The attributes of a \<open>PortfolioChatBot\<close> that a turn reads or writes.\<close>

record bot =
  knowledge_base :: collection
  conversation_history :: "message list"
  system_prompt :: pystr
  model :: pystr
  max_tokens :: int

definition opt_str :: "pystr option \<Rightarrow> pyval" where
  "opt_str c = (case c of None \<Rightarrow> PNone | Some s \<Rightarrow> PStr s)"

definition get_tools :: pyval where
  "get_tools = PList [PDict
     [(lit ''type'', PStr (lit ''function'')),
      (lit ''function'', PDict
        [(lit ''name'', PStr (lit ''search_knowledge_base'')),
         (lit ''description'', PStr (lit
           ''Search Glory's personal knowledge base for information about their experience, skills, projects, education, interests, and background'')),
         (lit ''parameters'', PDict
           [(lit ''type'', PStr (lit ''object'')),
            (lit ''properties'', PDict
              [(lit ''query'', PDict
                 [(lit ''type'', PStr (lit ''string'')),
                  (lit ''description'', PStr (lit
                    ''The search query to find relevant information about Glory''))])]),
            (lit ''required'', PList [PStr (lit ''query'')])])])]]"

text \<open>The text that \<open>_execute_function\<close> hands to the model for one search result.\<close>

definition format_context :: "'f search_result \<Rightarrow> pystr" where
  "format_context r = lit ''[From '' @ sr_source r @ lit '']'' @ [10] @ sr_content r"

definition execute_function ::
  "'f float_ops \<Rightarrow> 'f backend \<Rightarrow> collection \<Rightarrow> pystr \<Rightarrow> pyval \<Rightarrow> exn + pyval" where
  "execute_function fl be kb function_name arguments =
     (if function_name = lit ''search_knowledge_base'' then
        bind_exn (py_getitem arguments (lit ''query'')) (\<lambda>query.
          let results = search fl be kb query 3
          in if results \<noteq> [] then
               Inr (PDict
                 [(lit ''success'', PBool True),
                  (lit ''context'', PStr (py_join [10, 10] (map format_context results))),
                  (lit ''sources'', PList (map (\<lambda>r. PStr (sr_source r)) results)),
                  (lit ''num_results'', PInt (int (length results)))])
             else
               Inr (PDict
                 [(lit ''success'', PBool False),
                  (lit ''message'', PStr (lit ''No relevant information found in knowledge base''))]))
      else Inr (PDict [(lit ''error'', PStr (lit ''Unknown function: '' @ function_name))]))"

text \<open>The entry of \<open>messages\<close> made from a stored message.\<close>

definition api_message :: "message \<Rightarrow> pyval" where
  "api_message msg = PDict [(lit ''role'', PStr (role msg)), (lit ''content'', opt_str (content msg))]"

text \<open>The request context composed at the start of \<open>chat\<close>, for the stored history.\<close>

definition compose_messages :: "pystr \<Rightarrow> message list \<Rightarrow> pyval list" where
  "compose_messages sys history =
     PDict [(lit ''role'', PStr (lit ''system'')), (lit ''content'', PStr sys)] #
       map api_message (py_slice_from history (- 10))"

text \<open>The two entries appended to \<open>messages\<close> after a tool call.\<close>

definition tool_call_message ::
  "'f env \<Rightarrow> assistant_message \<Rightarrow> tool_call \<Rightarrow> pystr \<Rightarrow> pyval \<Rightarrow> pyval" where
  "tool_call_message ev assistant_msg call function_name function_args =
     PDict
       [(lit ''role'', PStr (lit ''assistant'')),
        (lit ''content'', opt_str (am_content assistant_msg)),
        (lit ''tool_calls'', PList [PDict
           [(lit ''id'', PStr (tc_id call)),
            (lit ''type'', PStr (lit ''function'')),
            (lit ''function'', PDict
               [(lit ''name'', PStr function_name),
                (lit ''arguments'', PStr (json_dumps ev function_args))])]])]"

definition tool_result_message :: "'f env \<Rightarrow> tool_call \<Rightarrow> pyval \<Rightarrow> pyval" where
  "tool_result_message ev call function_result =
     PDict
       [(lit ''role'', PStr (lit ''tool'')),
        (lit ''tool_call_id'', PStr (tc_id call)),
        (lit ''content'', PStr (json_dumps ev function_result))]"

text \<open>
  The end of \<open>chat\<close>: the answer is appended to the history and returned.
\<close>

definition finish_chat ::
  "'f env \<Rightarrow> bot \<Rightarrow> request list \<Rightarrow> pystr option \<Rightarrow>
     bot \<times> request list \<times> (exn + pystr option)" where
  "finish_chat ev self sent final_content =
     (self\<lparr>conversation_history := conversation_history self @
         [\<lparr>role = lit ''assistant'', content = final_content, timestamp = now_assistant ev\<rparr>]\<rparr>,
      sent, Inr final_content)"

text \<open>
  \<open>chat(user_message)\<close>. The result is the bot after the call, the requests sent to
  the model service in order, and the returned content or the exception that left the
  call.
\<close>

definition chat ::
  "'f env \<Rightarrow> bot \<Rightarrow> pystr \<Rightarrow> bot \<times> request list \<times> (exn + pystr option)" where
  "chat ev self0 user_message =
     (let self = self0\<lparr>conversation_history := conversation_history self0 @
            [\<lparr>role = lit ''user'', content = Some user_message, timestamp = now_user ev\<rparr>]\<rparr>;
          messages = compose_messages (system_prompt self) (conversation_history self);
          req1 = \<lparr>rq_model = model self, rq_messages = messages, rq_tools = Some get_tools,
                  rq_tool_choice = Some (lit ''auto''), rq_temperature = 7 / 10,
                  rq_max_tokens = max_tokens self\<rparr>
      in case create ev req1 of
           Inl e \<Rightarrow> (self, [req1], Inl e)
         | Inr response \<Rightarrow>
            (case choices response of
               [] \<Rightarrow> (self, [req1], Inl IndexError)
             | assistant_msg # _ \<Rightarrow>
                (case am_tool_calls assistant_msg of
                   Some (call # _) \<Rightarrow>
                    (let function_name = fn_name (tc_function call)
                     in case json_loads ev (fn_arguments (tc_function call)) of
                          Inl e \<Rightarrow> (self, [req1], Inl e)
                        | Inr function_args \<Rightarrow>
                           (case execute_function (floats ev) (query_backend ev) (knowledge_base self)
                                   function_name function_args of
                              Inl e \<Rightarrow> (self, [req1], Inl e)
                            | Inr function_result \<Rightarrow>
                               (let messages2 = messages @
                                      [tool_call_message ev assistant_msg call function_name function_args,
                                       tool_result_message ev call function_result];
                                    req2 = \<lparr>rq_model = model self, rq_messages = messages2,
                                            rq_tools = None, rq_tool_choice = None,
                                            rq_temperature = 7 / 10,
                                            rq_max_tokens = max_tokens self\<rparr>
                                in case create ev req2 of
                                     Inl e \<Rightarrow> (self, [req1, req2], Inl e)
                                   | Inr final_response \<Rightarrow>
                                      (case choices final_response of
                                         [] \<Rightarrow> (self, [req1, req2], Inl IndexError)
                                       | final_msg # _ \<Rightarrow>
                                          finish_chat ev self [req1, req2] (am_content final_msg)))))
                 | _ \<Rightarrow> finish_chat ev self [req1] (am_content assistant_msg))))"

definition reset_conversation :: "bot \<Rightarrow> bot" where
  "reset_conversation self = self\<lparr>conversation_history := []\<rparr>"

section \<open>Stand-ins for the collaborators\<close>

text \<open>
  Concrete collaborators at which the theorems below are instantiated. The store
  answers with the first \<open>n_results\<close> entries of the collection, at the distance that
  \<open>d_of\<close> gives each of them, and rejects a non-positive \<open>n_results\<close>.
\<close>

definition first_n_backend :: "(entry \<Rightarrow> 'f) \<Rightarrow> 'f backend" where
  "first_n_backend d_of es query n =
     (if n \<le> 0 then Inl ValueError
      else let hits = take (nat n) es
           in Inr \<lparr>qr_documents = Val [map document hits],
                   qr_metadatas = Val [map meta hits],
                   qr_distances = Val [map d_of hits]\<rparr>)"

definition sample_entries :: "entry list" where
  "sample_entries =
     [\<lparr>entry_id = lit ''cv_chunk_0_0'', document = lit ''Python and Go'',
        meta = \<lparr>source = lit ''cv.txt'', chunk_index = 0, file_type = lit ''.txt''\<rparr>\<rparr>,
      \<lparr>entry_id = lit ''bio_chunk_1_0'', document = lit ''Hiking'',
        meta = \<lparr>source = lit ''bio.md'', chunk_index = 0, file_type = lit ''.md''\<rparr>\<rparr>]"

text \<open>
  Float arithmetic on real numbers. It is used below at the values 0, 1/4, 1 and 2
  only, where the subtraction of doubles is exact as well.
\<close>

definition exact_floats :: "real float_ops" where
  "exact_floats = \<lparr>float_one = 1, float_sub = (\<lambda>x y. x - y)\<rparr>"

text \<open>A store none of whose calls fails.\<close>

definition no_faults :: store_faults where
  "no_faults = \<lparr>delete_fails = False, create_fails = False, add_fails = False\<rparr>"

text \<open>
  A model service that asks for one search when it is offered the tools and answers
  in words otherwise, with a \<open>json\<close> module that reads the arguments of that call.
\<close>

definition sample_create :: "request \<Rightarrow> exn + completion" where
  "sample_create rq =
     (if rq_tools rq \<noteq> None then
        Inr \<lparr>choices = [\<lparr>am_content = None,
                am_tool_calls = Some [\<lparr>tc_id = lit ''call_1'',
                  tc_function = \<lparr>fn_name = lit ''search_knowledge_base'',
                                  fn_arguments = lit ''{\"query\": \"skills\"}''\<rparr>\<rparr>]\<rparr>]\<rparr>
      else
        Inr \<lparr>choices = [\<lparr>am_content = Some (lit ''Glory is skilled in Python and Go.''),
                am_tool_calls = None\<rparr>]\<rparr>)"

definition sample_env :: "real env" where
  "sample_env =
     \<lparr>create = sample_create,
      query_backend = first_n_backend (\<lambda>e. 1 / 4),
      floats = exact_floats,
      json_loads = (\<lambda>s. Inr (PDict [(lit ''query'', PStr (lit ''skills''))])),
      json_dumps = (\<lambda>v. lit ''{}''),
      now_user = lit ''2024-01-01T10:00:00'',
      now_assistant = lit ''2024-01-01T10:00:02''\<rparr>"

definition sample_bot :: bot where
  "sample_bot =
     \<lparr>knowledge_base = Some sample_entries, conversation_history = [],
      system_prompt = lit ''You are Glory's AI Personal Assistant'',
      model = lit ''deepseek/deepseek-chat'', max_tokens = 700\<rparr>"

text \<open>A folder with one text file.\<close>

definition sample_readers :: readers where
  "sample_readers =
     \<lparr>read_text_file = (\<lambda>p. lit ''Rust and Go''), read_pdf = (\<lambda>p. []), read_docx = (\<lambda>p. [])\<rparr>"

definition sample_files :: "file_path list" where
  "sample_files = [\<lparr>name = lit ''cv.txt'', stem = lit ''cv'', suffix = lit ''.txt'', is_file = True\<rparr>]"

section \<open>Properties of the chunker\<close>

lemma split_from_words:
  "\<forall>c\<in>set cur. \<not> is_space c \<Longrightarrow> \<forall>w\<in>set (split_from cur s). is_word w"
proof (induction s arbitrary: cur)
  case Nil
  then show ?case by (simp add: is_word_def)
next
  case (Cons a s)
  show ?case
  proof (cases "is_space a")
    case True
    have "\<forall>w\<in>set (split_from [] s). is_word w"
      using Cons.IH [of "[]"] by simp
    with True Cons.prems show ?thesis by (simp add: is_word_def)
  next
    case False
    then have "\<forall>c\<in>set (cur @ [a]). \<not> is_space c"
      using Cons.prems by simp
    from Cons.IH [OF this] False show ?thesis by simp
  qed
qed

lemma py_split_words: "\<forall>w\<in>set (py_split s). is_word w"
  unfolding py_split_def using split_from_words [of "[]" s] by simp

lemma split_from_Nil:
  "split_from cur s = [] \<longleftrightarrow> cur = [] \<and> (\<forall>c\<in>set s. is_space c)"
  by (induction s arbitrary: cur) auto

lemma py_strip_nonempty: "py_strip s \<noteq> [] \<longleftrightarrow> (\<exists>c\<in>set s. \<not> is_space c)"
proof -
  have "py_strip s \<noteq> [] \<longleftrightarrow> dropWhile is_space (rev (dropWhile is_space s)) \<noteq> []"
    by (simp add: py_strip_def)
  also have "\<dots> \<longleftrightarrow> (\<exists>c\<in>set (dropWhile is_space s). \<not> is_space c)"
    by simp
  also have "\<dots> \<longleftrightarrow> (\<exists>c\<in>set s. \<not> is_space c)"
  proof
    assume "\<exists>c\<in>set (dropWhile is_space s). \<not> is_space c"
    then show "\<exists>c\<in>set s. \<not> is_space c" using set_dropWhileD by fastforce
  next
    assume "\<exists>c\<in>set s. \<not> is_space c"
    then have "dropWhile is_space s \<noteq> []" by simp
    then have "\<not> is_space (hd (dropWhile is_space s))" using hd_dropWhile by blast
    moreover have "hd (dropWhile is_space s) \<in> set (dropWhile is_space s)"
      using \<open>dropWhile is_space s \<noteq> []\<close> by simp
    ultimately show "\<exists>c\<in>set (dropWhile is_space s). \<not> is_space c" by blast
  qed
  finally show ?thesis .
qed

lemma py_split_Nil: "py_split s = [] \<longleftrightarrow> py_strip s = []"
  using py_strip_nonempty [of s] by (auto simp: py_split_def split_from_Nil)

lemma set_py_join_hd: "ws \<noteq> [] \<Longrightarrow> set (hd ws) \<subseteq> set (py_join sep ws)"
  by (induction sep ws rule: py_join.induct) auto

lemma py_slice_window:
  assumes "0 \<le> i" "i < int (length xs)" "0 < k"
  shows "py_slice xs i (i + k) = take (nat k) (drop (nat i) xs)"
  using assms by (auto simp: py_slice_def clip_index_def Let_def min_def)


declare chunk_loop.simps [simp del]

lemma chunk_nonblank:
  assumes "0 \<le> i" "i < int (length ws)" "0 < k" "\<forall>w\<in>set ws. is_word w"
  shows "py_strip (py_join sep (py_slice ws i (i + k))) \<noteq> []"
proof -
  let ?win = "take (nat k) (drop (nat i) ws)"
  have win: "py_slice ws i (i + k) = ?win"
    using assms by (rule_tac py_slice_window)
  have ne: "?win \<noteq> []" using assms by simp
  then have "hd ?win \<in> set ?win" by (rule hd_in_set)
  then have "hd ?win \<in> set ws"
    by (meson in_set_dropD in_set_takeD)
  then have "is_word (hd ?win)" using assms(4) by blast
  then obtain c where "c \<in> set (hd ?win)" "\<not> is_space c"
    unfolding is_word_def by (metis last_in_set)
  moreover have "set (hd ?win) \<subseteq> set (py_join sep ?win)"
    using ne by (rule set_py_join_hd)
  ultimately show ?thesis
    unfolding win py_strip_nonempty by blast
qed

lemma range_done:
  fixes n i step :: int
  assumes "0 < step" "\<not> i < n"
  shows "nat ((n - i + step - 1) div step) = 0"
proof -
  have "(n - i + step - 1) div step \<le> (step - 1) div step"
    using assms by (intro zdiv_mono1) auto
  also have "\<dots> = 0" using assms by simp
  finally show ?thesis by simp
qed

lemma range_next:
  fixes n i step :: int
  assumes "0 < step" "i < n"
  shows "nat ((n - i + step - 1) div step) = Suc (nat ((n - (i + step) + step - 1) div step))"
proof -
  have "(n - i + step - 1) div step = (n - i - 1) div step + 1"
    using assms by (smt (verit) div_add_self2)
  moreover have "0 \<le> (n - i - 1) div step"
    using assms by (simp add: pos_imp_zdiv_nonneg_iff)
  ultimately show ?thesis by (simp add: algebra_simps nat_add_distrib)
qed

lemma chunk_loop_length:
  assumes "0 < k" "\<forall>w\<in>set ws. is_word w"
  shows "0 \<le> i \<Longrightarrow> 0 < step \<Longrightarrow>
    length (chunk_loop ws k step i acc) =
      length acc + nat ((int (length ws) - i + step - 1) div step)"
  using assms
proof (induction ws k step i acc rule: chunk_loop.induct)
  case (1 words chunk_size step i chunks)
  show ?case
  proof (cases "i < int (length words)")
    case False
    then show ?thesis
      using "1.prems" by (subst chunk_loop.simps) (simp add: range_done)
  next
    case True
    let ?chunk = "py_join (lit '' '') (py_slice words i (i + chunk_size))"
    have nb: "py_strip ?chunk \<noteq> []"
      using "1.prems" True by (intro chunk_nonblank) auto
    have step: "chunk_loop words chunk_size step i chunks =
        chunk_loop words chunk_size step (i + step) (chunks @ [?chunk])"
      using "1.prems" True nb by (subst chunk_loop.simps) (simp add: Let_def)
    have "length (chunk_loop words chunk_size step (i + step) (chunks @ [?chunk])) =
        length (chunks @ [?chunk]) +
          nat ((int (length words) - (i + step) + step - 1) div step)"
      using "1.IH" [OF _ refl] "1.prems" True nb by simp
    then show ?thesis
      unfolding step using range_next [of step i "int (length words)"] "1.prems" True
      by simp
  qed
qed

lemma chunk_text_default:
  "\<exists>cs. chunk_text s 500 50 = Inr cs \<and> length cs = (length (py_split s) + 449) div 450"
proof -
  have "length (chunk_loop (py_split s) 500 450 0 []) =
      length ([] :: pystr list) + nat ((int (length (py_split s)) - 0 + 450 - 1) div 450)"
    using py_split_words by (intro chunk_loop_length) auto
  also have "\<dots> = (length (py_split s) + 449) div 450"
    by (simp add: nat_div_distrib nat_add_distrib)
  finally show ?thesis
    by (simp add: chunk_text_def Let_def)
qed


text \<open>
  Claim C3. With the default parameters (chunks of 500 words, overlap 50) the chunker
  returns normally for every text, and for a text of \<open>W\<close> whitespace-separated words
  it returns exactly \<open>\<lceil>W / 450\<rceil>\<close> chunks; the result is the empty list exactly
  when the text has no word, that is, when nothing is left of it after \<open>strip\<close> (it is
  empty or whitespace only).
\<close>

theorem chunk_count:
  "\<exists>cs. chunk_text s 500 50 = Inr cs \<and>
     int (length cs) = \<lceil>real (length (py_split s)) / 450\<rceil> \<and>
     (cs = []) = (py_split s = []) \<and>
     (py_split s = []) = (py_strip s = [])"
proof -
  obtain cs where cs: "chunk_text s 500 50 = Inr cs"
    and len: "length cs = (length (py_split s) + 449) div 450"
    using chunk_text_default by blast
  have "\<lceil>real (length (py_split s)) / 450\<rceil> = int ((length (py_split s) + 449) div 450)"
    by linarith
  moreover have "(cs = []) = (py_split s = [])"
    using len by (simp add: div_eq_0_iff flip: length_0_conv)
  ultimately show ?thesis using cs len py_split_Nil [of s] by simp
qed

text \<open>
  Claim C2, as the code has it. The chunker has no guard of its own for
  \<open>overlap \<ge> chunk_size\<close>; it still never loops. When \<open>overlap > chunk_size\<close> the
  range is empty and the result is the empty list for every text; when
  \<open>overlap = chunk_size\<close> the step is zero and \<open>range\<close> raises \<open>ValueError\<close>
  for every text, the empty one included.
\<close>

theorem chunk_text_nonpositive_step:
  "chunk_size \<le> overlap \<Longrightarrow>
     chunk_text s chunk_size overlap = (if overlap = chunk_size then Inl ValueError else Inr [])"
  by (simp add: chunk_text_def Let_def chunk_loop.simps)

theorem chunk_text_nonpositive_step_witness:
  "(2::int) \<le> 3 \<and> chunk_text (lit ''a b c'') 2 3 = Inr []"
  using chunk_text_nonpositive_step [of 2 3 "lit ''a b c''"] by simp

text \<open>
  Claim C2 as stated fails: with \<open>overlap = chunk_size\<close> the call does not return
  normally.
\<close>

theorem chunk_text_equal_overlap_raises:
  "chunk_text (lit ''hello world'') 500 500 = Inl ValueError"
  by (simp add: chunk_text_def)

section \<open>Properties of \_load\_documents\<close>

declare str_nat.simps [simp del]


lemma str_nat_digits: "set (str_nat n) \<subseteq> {48..57}"
proof (induction n rule: str_nat.induct)
  case (1 n)
  show ?case
  proof (cases "n < 10")
    case True
    then show ?thesis by (subst str_nat.simps) auto
  next
    case False
    have "n mod 10 < 10" by simp
    then have "48 + n mod 10 \<in> {48..57}" by auto
    with False "1.IH" show ?thesis by (subst str_nat.simps) auto
  qed
qed

lemma dec_val_str_nat: "dec_val (str_nat n) = n"
proof (induction n rule: str_nat.induct)
  case (1 n)
  show ?case
  proof (cases "n < 10")
    case True
    then show ?thesis by (subst str_nat.simps) (simp add: dec_val_def)
  next
    case False
    with "1.IH" show ?thesis by (subst str_nat.simps) (simp add: dec_val_def)
  qed
qed

lemma str_nat_inj: "str_nat m = str_nat n \<Longrightarrow> m = n"
  by (metis dec_val_str_nat)

lemma split_at_first:
  assumes "xs @ u # ys = xs' @ u # ys'" "u \<notin> set xs" "u \<notin> set xs'"
  shows "xs = xs' \<and> ys = ys'"
proof -
  have "takeWhile (\<lambda>c. c \<noteq> u) (xs @ u # ys) = xs"
    using assms(2) by (induction xs) auto
  moreover have "takeWhile (\<lambda>c. c \<noteq> u) (xs' @ u # ys') = xs'"
    using assms(3) by (induction xs') auto
  ultimately have "xs = xs'" using assms(1) by simp
  with assms(1) show ?thesis by simp
qed

lemma split_at_last:
  assumes "xs @ u # ys = xs' @ u # ys'" "u \<notin> set ys" "u \<notin> set ys'"
  shows "xs = xs' \<and> ys = ys'"
proof -
  from assms(1) have "rev (xs @ u # ys) = rev (xs' @ u # ys')" by simp
  then have "rev ys @ u # rev xs = rev ys' @ u # rev xs'" by simp
  then have "rev ys = rev ys' \<and> rev xs = rev xs'"
    by (rule split_at_first) (use assms(2,3) in simp_all)
  then show ?thesis by simp
qed

lemma underscore_not_digit: "95 \<notin> set (str_nat n)"
  using str_nat_digits [of n] by auto

lemma doc_id_inj:
  assumes "doc_id s d i = doc_id s' d' i'"
  shows "d = d' \<and> i = i'"
proof -
  let ?c = "[95, 99, 104, 117, 110, 107] :: pystr"
  have shape: "\<And>t e j. doc_id t e j = ((t @ ?c) @ 95 # str_nat e) @ 95 # str_nat j"
    by (simp add: doc_id_def lit_def)
  from assms have eq: "((s @ ?c) @ 95 # str_nat d) @ 95 # str_nat i =
      ((s' @ ?c) @ 95 # str_nat d') @ 95 # str_nat i'"
    unfolding shape .
  have 1: "(s @ ?c) @ 95 # str_nat d = (s' @ ?c) @ 95 # str_nat d' \<and> str_nat i = str_nat i'"
    by (rule split_at_last [OF eq underscore_not_digit underscore_not_digit])
  then have "(s @ ?c) @ 95 # str_nat d = (s' @ ?c) @ 95 # str_nat d'" ..
  then have 2: "s @ ?c = s' @ ?c \<and> str_nat d = str_nat d'"
    by (rule split_at_last [OF _ underscore_not_digit underscore_not_digit])
  from 1 2 show ?thesis by (auto dest: str_nat_inj)
qed

lemma add_chunks_ids:
  "ids (add_chunks fp i chunks st) =
     ids st @ map (doc_id (stem fp) (doc_count st)) [i ..< i + length chunks]
   \<and> doc_count (add_chunks fp i chunks st) = doc_count st"
proof (induction chunks arbitrary: i st)
  case Nil
  then show ?case by simp
next
  case (Cons c chunks)
  have "[i ..< i + length (c # chunks)] = i # [Suc i ..< Suc i + length chunks]"
    by (subst upt_rec) simp
  then show ?case by (simp add: Cons.IH del: upt_Suc)
qed

lemma add_chunks_ok:
  assumes "ids_ok st"
  shows "ids_ok ((add_chunks fp 0 chunks st)\<lparr>doc_count := doc_count st + 1\<rparr>)"
proof -
  let ?new = "map (doc_id (stem fp) (doc_count st)) [0 ..< length chunks]"
  have ids: "ids (add_chunks fp 0 chunks st) = ids st @ ?new"
    using add_chunks_ids [of fp 0 chunks st] by simp
  have "inj_on (doc_id (stem fp) (doc_count st)) (set [0 ..< length chunks])"
    by (rule inj_onI) (auto dest: doc_id_inj)
  then have d_new: "distinct ?new" by (simp add: distinct_map)
  have disj: "set (ids st) \<inter> set ?new = {}"
  proof (rule ccontr)
    assume "set (ids st) \<inter> set ?new \<noteq> {}"
    then obtain x where x: "x \<in> set (ids st)" "x \<in> set ?new" by blast
    from x(1) assms obtain s d j where old: "x = doc_id s d j" "d < doc_count st"
      unfolding ids_ok_def by blast
    from x(2) obtain j' where "x = doc_id (stem fp) (doc_count st) j'" by auto
    with old show False by (auto dest: doc_id_inj)
  qed
  have old: "\<forall>x\<in>set (ids st). \<exists>s d j. x = doc_id s d j \<and> d < doc_count st + 1"
    using assms unfolding ids_ok_def by (metis less_SucI Suc_eq_plus1)
  have new: "\<forall>x\<in>set ?new. \<exists>s d j. x = doc_id s d j \<and> d < doc_count st + 1"
    by auto
  show ?thesis
    unfolding ids_ok_def using assms d_new disj old new
    by (auto simp: ids ids_ok_def)
qed

lemma add_chunks_lengths:
  "same_lengths st \<Longrightarrow> same_lengths (add_chunks fp i chunks st)"
  by (induction chunks arbitrary: i st) (auto simp: same_lengths_def)

lemma scan_files_lengths:
  "same_lengths st \<Longrightarrow> scan_files rd files st = Inr st' \<Longrightarrow> same_lengths st'"
proof (induction files arbitrary: st)
  case Nil
  then show ?case by simp
next
  case (Cons fp files)
  have step: "\<And>chunks. same_lengths ((add_chunks fp 0 chunks st)\<lparr>doc_count := doc_count st + 1\<rparr>)"
    using add_chunks_lengths [OF Cons.prems(1)] by (simp add: same_lengths_def)
  from Cons.prems(2) show ?case
    using Cons.IH [OF Cons.prems(1)] Cons.IH [OF step]
    by (auto simp: Let_def split: if_splits sum.splits)
qed

lemma scan_files_ok:
  "ids_ok st \<Longrightarrow> \<exists>st'. scan_files rd files st = Inr st' \<and> ids_ok st'"
proof (induction files arbitrary: st)
  case Nil
  then show ?case by simp
next
  case (Cons fp files)
  obtain cs where cs: "\<And>c. chunk_text c 500 50 = Inr (cs c)"
    using chunk_text_default by metis
  show ?case
    using Cons.IH [OF Cons.prems] Cons.IH [OF add_chunks_ok [OF Cons.prems]]
    by (simp add: Let_def cs)
qed

text \<open>
  Claim C9. One run of \<open>_load_documents\<close> over any sequence of paths, whatever their
  stems are and whatever the extractors return, finishes its scan without an exception
  and the chunk ids it has collected are pairwise distinct.
\<close>

theorem chunk_ids_distinct:
  "\<exists>st. scan_files rd files load_state0 = Inr st \<and> distinct (ids st)"
proof -
  have "ids_ok load_state0" by (simp add: ids_ok_def load_state0_def)
  from scan_files_ok [OF this] show ?thesis
    unfolding ids_ok_def by blast
qed

section \<open>Properties of search\<close>

lemma format_loop_Inr:
  "format_loop fl results i docs acc = Inr rs \<Longrightarrow>
     \<exists>new. rs = acc @ new \<and> length new = length docs \<and>
       (\<forall>k<length docs. format_result fl results (i + k) (docs ! k) = Inr (new ! k))"
proof (induction docs arbitrary: i acc)
  case Nil
  then show ?case by simp
next
  case (Cons doc docs)
  from Cons.prems obtain r where r: "format_result fl results i doc = Inr r"
    and rest: "format_loop fl results (Suc i) docs (acc @ [r]) = Inr rs"
    by (auto split: sum.splits)
  from Cons.IH [OF rest] obtain new where new: "rs = (acc @ [r]) @ new"
    "length new = length docs"
    "\<forall>k<length docs. format_result fl results (Suc i + k) (docs ! k) = Inr (new ! k)"
    by blast
  have "\<forall>k<length (doc # docs).
      format_result fl results (i + k) ((doc # docs) ! k) = Inr ((r # new) ! k)"
  proof (intro allI impI)
    fix k assume "k < length (doc # docs)"
    then show "format_result fl results (i + k) ((doc # docs) ! k) = Inr ((r # new) ! k)"
      using r new(3) by (cases k) auto
  qed
  with new(1,2) show ?case
    by (intro exI [of _ "r # new"]) simp
qed

lemma format_result_score:
  assumes "format_result fl results i doc = Inr r"
  shows "sr_content r = doc \<and>
    (qr_distances results = Absent \<and> relevance_score r = float_one fl \<or>
     (\<exists>ds rest. qr_distances results = Val (ds # rest) \<and> i < length ds \<and>
        relevance_score r = float_sub fl (float_one fl) (ds ! i)))"
  using assms
  by (auto simp: format_result_def bind_exn_def subscript0_def py_index_def neq_Nil_conv
      split: sum.splits field.splits if_splits list.splits)

lemma search_cases:
  "search fl be coll query top_k = [] \<or>
   (\<exists>results docs rest. collection_query be coll query top_k = Inr results \<and>
      qr_documents results = Val (docs # rest) \<and> docs \<noteq> [] \<and>
      format_loop fl results 0 docs [] = Inr (search fl be coll query top_k))"
  by (auto simp: search_def search_try_def bind_exn_def
      split: sum.splits field.splits list.splits)

lemma search_length:
  assumes "collection_query be coll query top_k = Inr results"
    "qr_documents results = Val (docs # rest)"
  shows "length (search fl be coll query top_k) \<le> length docs"
proof (cases "search fl be coll query top_k = []")
  case True
  then show ?thesis by simp
next
  case False
  with search_cases [of fl be coll query top_k] assms
  have "format_loop fl results 0 docs [] = Inr (search fl be coll query top_k)" by auto
  from format_loop_Inr [OF this] show ?thesis by auto
qed

lemma backend_soundD:
  assumes "backend_sound be" "be es query n = Inr r" "qr_documents r = Val (ds # rest)"
  shows "int (length ds) \<le> n" "set ds \<subseteq> document ` set es"
  using assms unfolding backend_sound_def by blast+

lemma first_n_backend_sound: "backend_sound (first_n_backend d_of)"
  unfolding backend_sound_def first_n_backend_def
  by (auto simp: Let_def split: if_splits dest: in_set_takeD)

lemma search_deleted: "search fl be None query top_k = []"
  by (simp add: search_def search_try_def collection_query_def bind_exn_def)

lemma search_empty:
  assumes "backend_sound be"
  shows "search fl be (Some []) query top_k = []"
proof (rule ccontr)
  assume "search fl be (Some []) query top_k \<noteq> []"
  with search_cases [of fl be "Some []" query top_k]
  obtain results docs rest where q: "collection_query be (Some []) query top_k = Inr results"
    and d: "qr_documents results = Val (docs # rest)" and ne: "docs \<noteq> []" by auto
  from q have b: "be [] query top_k = Inr results"
    by (simp add: collection_query_def)
  have "set docs \<subseteq> {}"
    using backend_soundD(2) [OF assms b d] by simp
  with ne show False by simp
qed

text \<open>
  Claim C8. For a vector store that answers with at most \<open>n_results\<close> documents of the
  collection, \<open>search\<close> returns at most \<open>top_k\<close> results (none when \<open>top_k\<close> is not
  positive), returns the empty list on a collection without entries, and returns the
  empty list when the query of the store raises. \<open>search\<close> itself cannot raise: its
  result is a list in every case.
\<close>

theorem search_at_most_top_k:
  assumes "backend_sound be"
  shows "length (search fl be coll query top_k) \<le> nat top_k \<and>
     search fl be (Some []) query top_k = [] \<and>
     (\<forall>e. collection_query be coll query top_k = Inl e \<longrightarrow> search fl be coll query top_k = [])"
proof (intro conjI allI impI)
  show "length (search fl be coll query top_k) \<le> nat top_k"
  proof (cases "search fl be coll query top_k = []")
    case True
    then show ?thesis by simp
  next
    case False
    with search_cases [of fl be coll query top_k]
    obtain results docs rest where q: "collection_query be coll query top_k = Inr results"
      and d: "qr_documents results = Val (docs # rest)" by auto
    from q obtain es where "coll = Some es" and b: "be es query top_k = Inr results"
      by (auto simp: collection_query_def split: option.splits)
    have "int (length docs) \<le> top_k"
      by (rule backend_soundD(1) [OF assms b d])
    moreover have "length (search fl be coll query top_k) \<le> length docs"
      using q d by (rule search_length)
    ultimately show ?thesis by linarith
  qed
next
  show "search fl be (Some []) query top_k = []"
    using assms by (rule search_empty)
next
  fix e assume "collection_query be coll query top_k = Inl e"
  then show "search fl be coll query top_k = []"
    by (simp add: search_def search_try_def bind_exn_def)
qed

theorem search_at_most_top_k_witness:
  "backend_sound (first_n_backend (\<lambda>e. 0 :: real)) \<and>
   length (search exact_floats (first_n_backend (\<lambda>e. 0)) (Some sample_entries)
     (PStr (lit ''skills'')) 1) = 1 \<and>
   length (search exact_floats (first_n_backend (\<lambda>e. 0)) (Some sample_entries)
     (PStr (lit ''skills'')) 1) \<le> nat 1 \<and>
   search exact_floats (first_n_backend (\<lambda>e. 0)) (Some []) (PStr (lit ''skills'')) 1 = []"
proof -
  have ev: "length (search exact_floats (first_n_backend (\<lambda>e. 0)) (Some sample_entries)
      (PStr (lit ''skills'')) 1) = 1"
    by (simp add: search_def search_try_def collection_query_def first_n_backend_def
        sample_entries_def bind_exn_def format_result_def subscript0_def py_index_def Let_def)
  show ?thesis
    using search_at_most_top_k [of "first_n_backend (\<lambda>e. 0)" exact_floats
        "Some sample_entries" "PStr (lit ''skills'')" 1, OF first_n_backend_sound]
      first_n_backend_sound [of "\<lambda>e. 0 :: real"] ev
    by simp
qed

text \<open>
  Claim C5, as the code has it. The score of the result at position \<open>i\<close> is the float
  \<open>1.0\<close> when the answer of the store has no key \<open>distances\<close>, and otherwise the
  float \<open>1 - distance\<close> for the distance at position \<open>i\<close>. Nothing clamps it to the
  interval from 0 to 1.
\<close>

theorem search_relevance_score:
  assumes "i < length (search fl be coll query top_k)"
  shows "\<exists>results. collection_query be coll query top_k = Inr results \<and>
     (qr_distances results = Absent \<and>
        relevance_score (search fl be coll query top_k ! i) = float_one fl \<or>
      (\<exists>ds rest. qr_distances results = Val (ds # rest) \<and> i < length ds \<and>
         relevance_score (search fl be coll query top_k ! i) =
           float_sub fl (float_one fl) (ds ! i)))"
proof -
  let ?rs = "search fl be coll query top_k"
  from assms have "?rs \<noteq> []" by auto
  with search_cases [of fl be coll query top_k]
  obtain results docs where q: "collection_query be coll query top_k = Inr results"
    and loop: "format_loop fl results 0 docs [] = Inr ?rs" by auto
  from format_loop_Inr [OF loop] assms
  have "format_result fl results i (docs ! i) = Inr (?rs ! i)" by auto
  from format_result_score [OF this] q show ?thesis by auto
qed

theorem search_relevance_score_witness:
  "0 < length (search exact_floats (first_n_backend (\<lambda>e. 1 / 4)) (Some sample_entries)
     (PStr (lit ''skills'')) 3) \<and>
   relevance_score
     (search exact_floats (first_n_backend (\<lambda>e. 1 / 4)) (Some sample_entries)
        (PStr (lit ''skills'')) 3 ! 0) = 3 / 4"
proof -
  have ev: "search exact_floats (first_n_backend (\<lambda>e. 1 / 4)) (Some sample_entries)
      (PStr (lit ''skills'')) 3 =
      [\<lparr>sr_content = lit ''Python and Go'', sr_source = lit ''cv.txt'', relevance_score = 3 / 4\<rparr>,
       \<lparr>sr_content = lit ''Hiking'', sr_source = lit ''bio.md'', relevance_score = 3 / 4\<rparr>]"
    by (simp add: search_def search_try_def collection_query_def first_n_backend_def
        sample_entries_def bind_exn_def format_result_def subscript0_def py_index_def Let_def
        exact_floats_def)
  have "0 < length (search exact_floats (first_n_backend (\<lambda>e. 1 / 4)) (Some sample_entries)
      (PStr (lit ''skills'')) 3)"
    by (simp add: ev)
  from search_relevance_score [OF this] show ?thesis
    by (simp add: ev)
qed

text \<open>
  Claim C5 as stated fails: a store that reports the distance 2 for its two hits makes
  \<open>search\<close> return two results with the score \<open>-1\<close>, which is below 0.
\<close>

theorem search_score_out_of_range:
  "map relevance_score
     (search exact_floats (first_n_backend (\<lambda>e. 2)) (Some sample_entries)
        (PStr (lit ''skills'')) 3) = [- 1, - 1] \<and> (- 1 :: real) < 0"
  by (simp add: search_def search_try_def collection_query_def first_n_backend_def
        sample_entries_def bind_exn_def format_result_def subscript0_def py_index_def Let_def
        exact_floats_def)

section \<open>Properties of \_execute\_function\<close>

text \<open>
  Claim C7. For every tool name other than \<open>search_knowledge_base\<close> and every
  argument value, \<open>_execute_function\<close> returns the dictionary with the single key
  \<open>error\<close> and the text \<open>Unknown function: \<close> followed by the name; it does not
  raise.
\<close>

theorem unknown_function:
  "function_name \<noteq> lit ''search_knowledge_base'' \<Longrightarrow>
     execute_function fl be kb function_name arguments =
       Inr (PDict [(lit ''error'', PStr (lit ''Unknown function: '' @ function_name))])"
  by (simp add: execute_function_def)

theorem unknown_function_witness:
  "lit ''get_weather'' \<noteq> lit ''search_knowledge_base'' \<and>
   execute_function exact_floats (first_n_backend (\<lambda>e. 0)) (Some sample_entries) (lit ''get_weather'')
       (PDict [(lit ''city'', PStr (lit ''Oslo''))]) =
     Inr (PDict [(lit ''error'', PStr (lit ''Unknown function: get_weather''))])"
proof -
  have ne: "lit ''get_weather'' \<noteq> lit ''search_knowledge_base''"
    by (simp add: lit_def)
  from unknown_function [OF ne] show ?thesis
    using ne by (simp add: lit_def)
qed

text \<open>
  Claim C6, as the code has it. When the arguments hold a \<open>query\<close> and the search for
  it returns no result, the tool \<open>search_knowledge_base\<close> returns the dictionary with
  \<open>success\<close> false and the message
  \<open>No relevant information found in knowledge base\<close>.
\<close>

theorem no_results_message:
  assumes "py_getitem arguments (lit ''query'') = Inr query" "search fl be kb query 3 = []"
  shows "execute_function fl be kb (lit ''search_knowledge_base'') arguments =
     Inr (PDict [(lit ''success'', PBool False),
                 (lit ''message'', PStr (lit ''No relevant information found in knowledge base''))])"
  using assms by (simp add: execute_function_def bind_exn_def)

theorem no_results_message_witness:
  "py_getitem (PDict [(lit ''query'', PStr (lit ''xyz-nonexistent-term''))]) (lit ''query'') =
     Inr (PStr (lit ''xyz-nonexistent-term'')) \<and>
   search exact_floats (first_n_backend (\<lambda>e. 0)) (Some []) (PStr (lit ''xyz-nonexistent-term'')) 3 = [] \<and>
   execute_function exact_floats (first_n_backend (\<lambda>e. 0)) (Some []) (lit ''search_knowledge_base'')
       (PDict [(lit ''query'', PStr (lit ''xyz-nonexistent-term''))]) =
     Inr (PDict [(lit ''success'', PBool False),
                 (lit ''message'', PStr (lit ''No relevant information found in knowledge base''))])"
proof -
  have a: "py_getitem (PDict [(lit ''query'', PStr (lit ''xyz-nonexistent-term''))]) (lit ''query'') =
      Inr (PStr (lit ''xyz-nonexistent-term''))"
    by (simp add: py_getitem_def)
  have b: "search exact_floats (first_n_backend (\<lambda>e. 0)) (Some []) (PStr (lit ''xyz-nonexistent-term'')) 3 = []"
    by (simp add: search_def search_try_def collection_query_def first_n_backend_def bind_exn_def)
  from no_results_message [OF a b] a b show ?thesis by simp
qed

text \<open>
  Claim C6 as stated fails: on a search without results the returned dictionary is not
  the one whose message is \<open>No relevant information found\<close>.
\<close>

theorem no_results_message_differs:
  "search exact_floats (first_n_backend (\<lambda>e. 0)) (Some []) (PStr (lit ''xyz-nonexistent-term'')) 3 = [] \<and>
   execute_function exact_floats (first_n_backend (\<lambda>e. 0)) (Some []) (lit ''search_knowledge_base'')
       (PDict [(lit ''query'', PStr (lit ''xyz-nonexistent-term''))]) \<noteq>
     Inr (PDict [(lit ''success'', PBool False),
                 (lit ''message'', PStr (lit ''No relevant information found''))])"
proof -
  have b: "search exact_floats (first_n_backend (\<lambda>e. 0)) (Some []) (PStr (lit ''xyz-nonexistent-term'')) 3 = []"
    by (simp add: search_def search_try_def collection_query_def first_n_backend_def bind_exn_def)
  have "length (lit ''No relevant information found in knowledge base'') \<noteq>
      length (lit ''No relevant information found'')"
    by (simp add: lit_def)
  then have "lit ''No relevant information found in knowledge base'' \<noteq>
      lit ''No relevant information found''"
    by metis
  then show ?thesis
    using b by (simp add: execute_function_def bind_exn_def py_getitem_def)
qed

section \<open>Properties of chat\<close>

lemma last_ten: "py_slice_from h (- 10) = drop (length h - min (length h) 10) h"
proof -
  have "nat (max (int (length h) - 10) 0) = length h - min (length h) 10"
    by linarith
  then show ?thesis
    by (simp add: py_slice_from_def clip_index_def)
qed

lemma length_compose_messages:
  "length (compose_messages sys h) = Suc (min (length h) 10)"
  by (simp add: compose_messages_def last_ten)

text \<open>
  Claim C4. Let \<open>n\<close> be the length of the stored history once \<open>chat\<close> has appended
  the user message to it. The first request of the call carries the system prompt
  followed by exactly the last \<open>min n 10\<close> stored messages in order; every request of
  the call starts with that context; and the history after the call still begins with
  all \<open>n\<close> stored messages, whatever the model service answers.
\<close>

theorem chat_request_context:
  "\<exists>self' sent res.
     chat ev self0 user_message = (self', sent, res) \<and>
     sent \<noteq> [] \<and>
     rq_messages (hd sent) =
       PDict [(lit ''role'', PStr (lit ''system'')), (lit ''content'', PStr (system_prompt self0))] #
       map api_message
         (drop (length (conversation_history self0) + 1 -
                  min (length (conversation_history self0) + 1) 10)
            (conversation_history self0 @
               [\<lparr>role = lit ''user'', content = Some user_message, timestamp = now_user ev\<rparr>])) \<and>
     map (\<lambda>rq. take (Suc (min (length (conversation_history self0) + 1) 10)) (rq_messages rq)) sent =
       replicate (length sent) (rq_messages (hd sent)) \<and>
     take (length (conversation_history self0) + 1) (conversation_history self') =
       conversation_history self0 @
         [\<lparr>role = lit ''user'', content = Some user_message, timestamp = now_user ev\<rparr>]"
proof -
  let ?h = "conversation_history self0 @
      [\<lparr>role = lit ''user'', content = Some user_message, timestamp = now_user ev\<rparr>]"
  have len: "length (compose_messages (system_prompt self0) ?h) =
      Suc (min (length (conversation_history self0) + 1) 10)"
    by (simp add: length_compose_messages)
  have ctx: "compose_messages (system_prompt self0) ?h =
      PDict [(lit ''role'', PStr (lit ''system'')), (lit ''content'', PStr (system_prompt self0))] #
      map api_message
        (drop (length (conversation_history self0) + 1 -
                 min (length (conversation_history self0) + 1) 10) ?h)"
    by (simp add: compose_messages_def last_ten)
  show ?thesis
    unfolding ctx [symmetric] len [symmetric]
    by (auto simp: chat_def Let_def finish_chat_def
        split: sum.splits list.splits option.splits)
qed

text \<open>
  Claim C10. A call of \<open>chat\<close> that returns appends exactly two messages to the
  stored history: the user message, then one assistant message with the returned
  content. This holds on both paths. The call sends one request, or, on the tool-call
  path, two, and the assistant tool-call message and the tool message appear only at
  the end of the messages of the second request.
\<close>

theorem chat_history_append:
  assumes "chat ev self0 user_message = (self', sent, Inr final_content)"
  shows "conversation_history self' =
       conversation_history self0 @
         [\<lparr>role = lit ''user'', content = Some user_message, timestamp = now_user ev\<rparr>,
          \<lparr>role = lit ''assistant'', content = final_content, timestamp = now_assistant ev\<rparr>] \<and>
     ((\<exists>r1. sent = [r1]) \<or>
      (\<exists>r1 r2 assistant_msg call function_args function_result.
         sent = [r1, r2] \<and>
         rq_messages r2 = rq_messages r1 @
           [tool_call_message ev assistant_msg call (fn_name (tc_function call)) function_args,
            tool_result_message ev call function_result]))"
  using assms
  by (auto simp: chat_def Let_def finish_chat_def
      split: sum.splits list.splits option.splits) blast

lemma sample_chat:
  "chat sample_env sample_bot (lit ''What are Glory's skills?'') =
     (sample_bot\<lparr>conversation_history :=
        [\<lparr>role = lit ''user'', content = Some (lit ''What are Glory's skills?''),
           timestamp = lit ''2024-01-01T10:00:00''\<rparr>,
         \<lparr>role = lit ''assistant'', content = Some (lit ''Glory is skilled in Python and Go.''),
           timestamp = lit ''2024-01-01T10:00:02''\<rparr>]\<rparr>,
      fst (snd (chat sample_env sample_bot (lit ''What are Glory's skills?''))),
      Inr (Some (lit ''Glory is skilled in Python and Go.'')))"
  by (simp add: chat_def sample_env_def sample_bot_def sample_create_def Let_def finish_chat_def
      execute_function_def bind_exn_def py_getitem_def)

theorem chat_history_append_witness:
  "snd (snd (chat sample_env sample_bot (lit ''What are Glory's skills?''))) =
     Inr (Some (lit ''Glory is skilled in Python and Go.'')) \<and>
   length (fst (snd (chat sample_env sample_bot (lit ''What are Glory's skills?'')))) = 2 \<and>
   conversation_history (fst (chat sample_env sample_bot (lit ''What are Glory's skills?''))) =
     [\<lparr>role = lit ''user'', content = Some (lit ''What are Glory's skills?''),
        timestamp = lit ''2024-01-01T10:00:00''\<rparr>,
      \<lparr>role = lit ''assistant'', content = Some (lit ''Glory is skilled in Python and Go.''),
        timestamp = lit ''2024-01-01T10:00:02''\<rparr>]"
proof -
  let ?out = "chat sample_env sample_bot (lit ''What are Glory's skills?'')"
  have ret: "snd (snd ?out) = Inr (Some (lit ''Glory is skilled in Python and Go.''))"
    by (subst sample_chat) simp
  then have "?out =
      (fst ?out, fst (snd ?out), Inr (Some (lit ''Glory is skilled in Python and Go.'')))"
    by (metis prod.collapse)
  from chat_history_append [OF this] have
    h: "conversation_history (fst ?out) = conversation_history sample_bot @
         [\<lparr>role = lit ''user'', content = Some (lit ''What are Glory's skills?''),
            timestamp = now_user sample_env\<rparr>,
          \<lparr>role = lit ''assistant'', content = Some (lit ''Glory is skilled in Python and Go.''),
            timestamp = now_assistant sample_env\<rparr>]"
    by blast
  have len: "length (fst (snd ?out)) = 2"
    by (simp add: chat_def sample_env_def sample_bot_def sample_create_def Let_def finish_chat_def
      execute_function_def bind_exn_def py_getitem_def)
  show ?thesis
    using ret h len by (simp add: sample_env_def sample_bot_def)
qed

section \<open>Properties of refresh\_knowledge\_base\<close>

lemma load_documents_fresh:
  assumes "scan_files rd files load_state0 = Inr st"
    "load_documents flt rd files (Some []) = Inr c"
  shows "c = Some (zip_entries (documents st) (metadatas st) (ids st))"
proof (cases "documents st = []")
  case True
  then show ?thesis using assms by (simp add: load_documents_def)
next
  case False
  then show ?thesis using assms
    by (simp add: load_documents_def collection_add_def split: if_splits)
qed

lemma load_documents_raises:
  assumes "load_documents flt rd files (Some es) = Inl e"
  shows "add_fails flt"
proof -
  have ok: "ids_ok load_state0" and len: "same_lengths load_state0"
    by (simp_all add: ids_ok_def same_lengths_def load_state0_def)
  from scan_files_ok [OF ok] obtain st where st: "scan_files rd files load_state0 = Inr st"
    and ids: "ids_ok st" by blast
  from scan_files_lengths [OF len st] ids have "same_lengths st" "distinct (ids st)"
    by (simp_all add: ids_ok_def)
  with assms st show ?thesis
    by (auto simp: load_documents_def collection_add_def same_lengths_def split: if_splits)
qed

lemma sample_scan:
  "scan_files sample_readers sample_files load_state0 =
     Inr \<lparr>documents = [lit ''Rust and Go''],
          metadatas = [\<lparr>source = lit ''cv.txt'', chunk_index = 0, file_type = lit ''.txt''\<rparr>],
          ids = [lit ''cv_chunk_0_0''], doc_count = 1\<rparr>"
  by (simp add: sample_readers_def sample_files_def load_state0_def supported_extensions_def
      py_lower_def lit_def py_strip_def is_space_def chunk_text_def py_split_def Let_def
      chunk_loop.simps py_slice_def clip_index_def doc_id_def str_nat.simps)

lemma sample_refresh:
  "refresh_run no_faults sample_readers sample_files (Some sample_entries) =
     ([None, Some [],
       Some [\<lparr>entry_id = lit ''cv_chunk_0_0'', document = lit ''Rust and Go'',
               meta = \<lparr>source = lit ''cv.txt'', chunk_index = 0, file_type = lit ''.txt''\<rparr>\<rparr>]],
      Inr (Some [\<lparr>entry_id = lit ''cv_chunk_0_0'', document = lit ''Rust and Go'',
               meta = \<lparr>source = lit ''cv.txt'', chunk_index = 0, file_type = lit ''.txt''\<rparr>\<rparr>]))"
  by (simp add: refresh_run_def delete_collection_def create_collection_def no_faults_def
      load_documents_def sample_scan collection_add_def)

text \<open>
  Claim C1, as the code has it. \<open>refresh_knowledge_base\<close> is not atomic. When the
  delete and the create succeed, the collection is missing after the first statement
  and empty after the second, and a search in either state returns the empty list
  (for a store that only answers with documents of the collection). The new entries
  come with the single \<open>collection.add\<close> of \<open>_load_documents\<close>: a rebuild that
  returns without an exception has passed through these two states and ends with
  exactly the new entries.
\<close>

theorem refresh_not_atomic:
  assumes "backend_sound be" "\<not> delete_fails flt" "\<not> create_fails flt"
  shows "take 2 (refresh_states flt rd files coll) = [None, Some []] \<and>
     search fl be None query top_k = [] \<and> search fl be (Some []) query top_k = [] \<and>
     (\<forall>c. refresh_knowledge_base flt rd files coll = Inr c \<longrightarrow>
        (\<exists>st. scan_files rd files load_state0 = Inr st \<and>
           c = Some (zip_entries (documents st) (metadatas st) (ids st)) \<and>
           refresh_states flt rd files coll = [None, Some [], c]))"
proof (intro conjI allI impI)
  show "take 2 (refresh_states flt rd files coll) = [None, Some []]"
    using assms(2,3)
    by (simp add: refresh_states_def refresh_run_def delete_collection_def
        create_collection_def split: sum.splits)
next
  show "search fl be None query top_k = []" by (rule search_deleted)
next
  show "search fl be (Some []) query top_k = []" using assms(1) by (rule search_empty)
next
  fix c assume ok: "refresh_knowledge_base flt rd files coll = Inr c"
  have "ids_ok load_state0" by (simp add: ids_ok_def load_state0_def)
  from scan_files_ok [OF this] obtain st where st: "scan_files rd files load_state0 = Inr st"
    by blast
  from ok assms(2,3) have load: "load_documents flt rd files (Some []) = Inr c"
    by (simp add: refresh_knowledge_base_def refresh_run_def delete_collection_def
        create_collection_def split: sum.splits)
  then have "refresh_states flt rd files coll = [None, Some [], c]"
    using assms(2,3)
    by (simp add: refresh_states_def refresh_run_def delete_collection_def
        create_collection_def)
  with load_documents_fresh [OF st load] st
  show "\<exists>st. scan_files rd files load_state0 = Inr st \<and>
      c = Some (zip_entries (documents st) (metadatas st) (ids st)) \<and>
      refresh_states flt rd files coll = [None, Some [], c]"
    by blast
qed

theorem refresh_not_atomic_witness:
  "backend_sound (first_n_backend (\<lambda>e. 1 / 4 :: real)) \<and>
   \<not> delete_fails no_faults \<and> \<not> create_fails no_faults \<and>
   take 2 (refresh_states no_faults sample_readers sample_files (Some sample_entries)) =
     [None, Some []] \<and>
   refresh_knowledge_base no_faults sample_readers sample_files (Some sample_entries) =
     Inr (Some [\<lparr>entry_id = lit ''cv_chunk_0_0'', document = lit ''Rust and Go'',
              meta = \<lparr>source = lit ''cv.txt'', chunk_index = 0, file_type = lit ''.txt''\<rparr>\<rparr>]) \<and>
   search exact_floats (first_n_backend (\<lambda>e. 1 / 4)) None (PStr (lit ''skills'')) 3 = [] \<and>
   search exact_floats (first_n_backend (\<lambda>e. 1 / 4)) (Some []) (PStr (lit ''skills'')) 3 = []"
proof -
  have s: "backend_sound (first_n_backend (\<lambda>e. 1 / 4 :: real))"
    by (rule first_n_backend_sound)
  have d: "\<not> delete_fails no_faults" and c: "\<not> create_fails no_faults"
    by (simp_all add: no_faults_def)
  from refresh_not_atomic [where rd = sample_readers and files = sample_files
      and coll = "Some sample_entries" and fl = exact_floats
      and query = "PStr (lit ''skills'')" and top_k = 3, OF s d c]
  show ?thesis
    using s d c by (simp add: refresh_knowledge_base_def sample_refresh)
qed

text \<open>
  Claim C1 as stated fails. The old index has two entries and the rebuilt one has one,
  so a search finds results before and after the rebuild; in the state between
  \<open>create_collection\<close> and \<open>_load_documents\<close> the same search returns nothing.
\<close>

theorem refresh_empty_window:
  "search exact_floats (first_n_backend (\<lambda>e. 1 / 4)) (Some sample_entries)
     (PStr (lit ''skills'')) 3 \<noteq> [] \<and>
   search exact_floats (first_n_backend (\<lambda>e. 1 / 4))
     (refresh_states no_faults sample_readers sample_files (Some sample_entries) ! 2)
     (PStr (lit ''skills'')) 3 \<noteq> [] \<and>
   refresh_states no_faults sample_readers sample_files (Some sample_entries) ! 1 = Some [] \<and>
   search exact_floats (first_n_backend (\<lambda>e. 1 / 4))
     (refresh_states no_faults sample_readers sample_files (Some sample_entries) ! 1)
     (PStr (lit ''skills'')) 3 = []"
proof -
  have st: "refresh_states no_faults sample_readers sample_files (Some sample_entries) =
     [None, Some [],
      Some [\<lparr>entry_id = lit ''cv_chunk_0_0'', document = lit ''Rust and Go'',
              meta = \<lparr>source = lit ''cv.txt'', chunk_index = 0, file_type = lit ''.txt''\<rparr>\<rparr>]]"
    by (simp add: refresh_states_def sample_refresh)
  show ?thesis
    unfolding st
    by (simp add: search_def search_try_def collection_query_def first_n_backend_def
        sample_entries_def bind_exn_def format_result_def subscript0_def py_index_def Let_def
        exact_floats_def)
qed

end
